theory Spec2Isabelle
  imports Main "HOL-Library.Word"
begin

section \<open>Values, promises and effects\<close>

text \<open>
  The module \<^verbatim>\<open>nwup.js\<close> keeps its state in \<^verbatim>\<open>localStorage.nwup\<close>, a JSON
  object written by \<^verbatim>\<open>storeData\<close> and \<^verbatim>\<open>removeData\<close>. The parsed object is a
  map from field names to the strings stored there; the storage slot itself may be
  absent (a falsy \<^verbatim>\<open>localStorage.nwup\<close>).
\<close>

type_synonym blob = "string \<rightharpoonup> string"
type_synonym storage = "blob option"

text \<open>What a property read can give: \<^verbatim>\<open>undefined\<close>, \<^verbatim>\<open>null\<close> or a string.\<close>

datatype jsval = Undefined | Null | Str string

text \<open>JavaScript truthiness (\<^verbatim>\<open>!x\<close> is its negation): the empty string is falsy.\<close>

fun truthy :: "jsval \<Rightarrow> bool" where
  "truthy Undefined = False"
| "truthy Null = False"
| "truthy (Str s) = (s \<noteq> [])"

text \<open>\<^verbatim>\<open>x == s\<close> for a string \<open>s\<close>: neither \<^verbatim>\<open>undefined\<close> nor \<^verbatim>\<open>null\<close> equals a string.\<close>

fun loose_eq :: "jsval \<Rightarrow> string \<Rightarrow> bool" where
  "loose_eq (Str a) b = (a = b)"
| "loose_eq Undefined b = False"
| "loose_eq Null b = False"

text \<open>The values a promise of this module is rejected with.\<close>

datatype reason =
    RequestError string   \<comment> \<open>the error object of the HTTP client\<close>
  | StatusCode nat        \<comment> \<open>\<^verbatim>\<open>'Server responded with status code: ' + statusCode\<close>\<close>
  | DevMode               \<comment> \<open>\<^verbatim>\<open>'Update aborted in development environment'\<close>\<close>
  | UpdateNotFound        \<comment> \<open>\<^verbatim>\<open>'update file not found. server replied with code:'\<close>\<close>
  | FsError string        \<comment> \<open>the error object of a filesystem call or stream\<close>

text \<open>A deferred of the Q library: settled at most once, later calls are ignored.\<close>

datatype 'a promise = Pending | Resolved 'a | Rejected reason

definition reject :: "reason \<Rightarrow> 'a promise \<Rightarrow> 'a promise" where
  "reject r p = (case p of Pending \<Rightarrow> Rejected r | _ \<Rightarrow> p)"

definition resolve :: "'a \<Rightarrow> 'a promise \<Rightarrow> 'a promise" where
  "resolve x p = (case p of Pending \<Rightarrow> Resolved x | _ \<Rightarrow> p)"

text \<open>The operations on the world outside the module, in the order they are issued.\<close>

datatype effect =
    CreateReadStream string
  | CreateReadRange string nat nat   \<comment> \<open>path, \<^verbatim>\<open>start\<close>, \<^verbatim>\<open>end\<close>\<close>
  | CreateWriteStream string
  | CreateAppendStream string        \<comment> \<open>\<^verbatim>\<open>{flags:'a'}\<close>\<close>
  | Mkdirp string
  | HttpGet string
  | Unlink string
  | Rename string string
  | Rimraf string
  | SetTimeout nat                   \<comment> \<open>delay in milliseconds\<close>
  | Spawn string                     \<comment> \<open>\<^verbatim>\<open>spawn(execPath, {detached: true})\<close>\<close>
  | WindowHide
  | AppQuit

section \<open>Persisted state\<close>

definition MODE_UPDATE :: string where "MODE_UPDATE = ''UPDATE''"
definition MODE_CLEAN :: string where "MODE_CLEAN = ''CLEAN''"
definition DATA_MODE :: string where "DATA_MODE = ''mode''"
definition DATA_EXECPATH :: string where "DATA_EXECPATH = ''execPath''"

definition storeData :: "(string \<times> string) list \<Rightarrow> storage \<Rightarrow> storage" where
  "storeData data ls =
     Some (fold (\<lambda>(k, v) nwup. nwup(k \<mapsto> v)) data
             (case ls of None \<Rightarrow> Map.empty | Some nwup \<Rightarrow> nwup))"

definition getData :: "string \<Rightarrow> storage \<Rightarrow> jsval" where
  "getData key ls =
     (case ls of
        None \<Rightarrow> Null
      | Some nwup \<Rightarrow> (case nwup key of None \<Rightarrow> Undefined | Some v \<Rightarrow> Str v))"

definition removeData :: "string \<Rightarrow> storage \<Rightarrow> storage" where
  "removeData key ls =
     (case ls of None \<Rightarrow> None | Some nwup \<Rightarrow> Some (nwup(key := None)))"

section \<open>Lifecycle operations\<close>

definition isUpdating :: "storage \<Rightarrow> bool" where
  "isUpdating ls = loose_eq (getData DATA_MODE ls) MODE_UPDATE"

definition needsCleaning :: "storage \<Rightarrow> bool" where
  "needsCleaning ls = loose_eq (getData DATA_MODE ls) MODE_CLEAN"

text \<open>
  \<^verbatim>\<open>respawn\<close> starts the executable detached, hides the window and quits the
  application.
\<close>

definition respawn :: "string \<Rightarrow> effect list" where
  "respawn execPath = [Spawn execPath, WindowHide, AppQuit]"

text \<open>
  \<^verbatim>\<open>applyUpdate(updatePath)\<close> in a process whose \<^verbatim>\<open>process.execPath\<close> is
  \<open>execPath\<close>. A value that is not a string cannot be spawned; the only truthy
  values of \<open>jsval\<close> are non-empty strings.
\<close>

definition applyUpdate :: "jsval \<Rightarrow> string \<Rightarrow> storage \<Rightarrow> storage \<times> effect list" where
  "applyUpdate updatePath execPath ls =
     (if \<not> truthy updatePath then (ls, [])
      else
        (storeData [(DATA_MODE, MODE_UPDATE), (DATA_EXECPATH, execPath)] ls,
         respawn (case updatePath of Str p \<Rightarrow> p | _ \<Rightarrow> [])))"

text \<open>
  How the copy \<^verbatim>\<open>readStream.pipe(writeStream)\<close> of one \<^verbatim>\<open>completeUpdate\<close> call
  ends: an \<^verbatim>\<open>'error'\<close> event of the read stream, an \<^verbatim>\<open>'error'\<close> event of the write
  stream, or the \<^verbatim>\<open>'finish'\<close> event of the write stream.
\<close>

datatype copy_outcome = ReadError string | WriteError string | Finish

text \<open>How one \<^verbatim>\<open>completeUpdate\<close> call ends.\<close>

datatype cu_status =
    Returned          \<comment> \<open>an early \<^verbatim>\<open>return\<close>\<close>
  | Thrown string     \<comment> \<open>\<^verbatim>\<open>throw err\<close> in the read stream's error handler\<close>
  | RetryScheduled    \<comment> \<open>\<^verbatim>\<open>setTimeout(function() {self.completeUpdate();}, 1000)\<close>\<close>
  | Respawned         \<comment> \<open>\<^verbatim>\<open>respawn(oldExecPath)\<close>\<close>

definition completeUpdate ::
  "string \<Rightarrow> copy_outcome \<Rightarrow> storage \<Rightarrow> storage \<times> effect list \<times> cu_status" where
  "completeUpdate newExecPath outcome ls =
     (let oldExecPath = getData DATA_EXECPATH ls in
      if \<not> truthy oldExecPath then (ls, [], Returned)
      else if loose_eq oldExecPath newExecPath then
        (removeData DATA_EXECPATH (removeData DATA_MODE ls), [], Returned)
      else
        (let old = (case oldExecPath of Str p \<Rightarrow> p | _ \<Rightarrow> []);
             streams = [CreateReadStream newExecPath, CreateWriteStream old]
         in case outcome of
              ReadError e \<Rightarrow> (ls, streams, Thrown e)
            | WriteError e \<Rightarrow> (ls, streams @ [SetTimeout 1000], RetryScheduled)
            | Finish \<Rightarrow>
                (storeData [(DATA_MODE, MODE_CLEAN)] (removeData DATA_EXECPATH ls),
                 streams @ respawn old, Respawned)))"

text \<open>
  The retry loop: the timer callback calls \<^verbatim>\<open>completeUpdate\<close> again. \<open>outcomes i\<close>
  is how the copy of attempt \<open>i\<close> ends. The loop has no counter, so it need not
  return: not returning is the value \<open>None\<close>.
\<close>

partial_function (option) completeUpdate_loop ::
  "string \<Rightarrow> (nat \<Rightarrow> copy_outcome) \<Rightarrow> nat \<Rightarrow> storage \<Rightarrow> effect list
     \<Rightarrow> (storage \<times> effect list \<times> cu_status) option" where
  "completeUpdate_loop newExecPath outcomes i ls done_effects =
     (case completeUpdate newExecPath (outcomes i) ls of
        (ls', es, st) \<Rightarrow>
          if st = RetryScheduled
          then completeUpdate_loop newExecPath outcomes (Suc i) ls' (done_effects @ es)
          else Some (ls', done_effects @ es, st))"

text \<open>What one failed attempt of \<^verbatim>\<open>completeUpdate\<close> issues before the next one.\<close>

definition retry_effects :: "string \<Rightarrow> string \<Rightarrow> effect list" where
  "retry_effects new old = [CreateReadStream new, CreateWriteStream old, SetTimeout 1000]"

text \<open>Node's \<^verbatim>\<open>path.dirname\<close> and \<^verbatim>\<open>path.join\<close> on normalised paths.\<close>

definition path_sep :: char where "path_sep = CHR ''/''"

definition path_dirname :: "string \<Rightarrow> string" where
  "path_dirname p =
     (if path_sep \<in> set p then rev (tl (dropWhile (\<lambda>c. c \<noteq> path_sep) (rev p))) else ''.'')"

definition path_join :: "string \<Rightarrow> string \<Rightarrow> string" where
  "path_join a b = a @ path_sep # b"

text \<open>
  \<^verbatim>\<open>clean()\<close>: \<open>rimraf_err\<close> is the error the \<^verbatim>\<open>rimraf\<close> callback receives, if any.
  After \<^verbatim>\<open>if (err) deferred.reject(err)\<close> the callback goes on: the mode is removed
  in both cases.
\<close>

definition clean ::
  "string \<Rightarrow> string option \<Rightarrow> storage \<Rightarrow> storage \<times> effect list \<times> unit promise" where
  "clean execPath rimraf_err ls =
     (let baseDir = path_dirname execPath;
          tmpPath = path_join baseDir ''tmp'';
          updatePath = path_join baseDir ''update.exe'';
          rimglob = ''{'' @ tmpPath @ '','' @ updatePath @ ''}'';
          d = (case rimraf_err of Some e \<Rightarrow> reject (FsError e) Pending | None \<Rightarrow> Pending)
      in (removeData DATA_MODE ls, [Rimraf rimglob], resolve () d))"

text \<open>The string stored under a field of the persisted object, if any.\<close>

definition field :: "string \<Rightarrow> storage \<Rightarrow> string option" where
  "field key ls = (case ls of None \<Rightarrow> None | Some nwup \<Rightarrow> nwup key)"

text \<open>
  The order of calls the lifecycle allows on the persisted state. \<^verbatim>\<open>applyUpdate\<close> and
  \<^verbatim>\<open>completeUpdate\<close> may be called in any state, by a process with any executable
  path and with any end of the copy. \<^verbatim>\<open>clean()\<close> is called on startup when
  \<^verbatim>\<open>needsCleaning()\<close> holds, as the usage section of the module's documentation has
  it: \<^verbatim>\<open>if (updater.needsCleaning()) { updater.clean() }\<close>. Each call runs to its
  end before the next one starts: the callback of \<^verbatim>\<open>rimraf\<close> in \<^verbatim>\<open>clean()\<close> is
  part of the call.
\<close>

datatype call =
    ApplyUpdate jsval string
  | CompleteUpdate string copy_outcome
  | Clean string "string option"

inductive lifecycle_step :: "storage \<Rightarrow> call \<Rightarrow> storage \<Rightarrow> bool" where
  step_apply:
    "lifecycle_step ls (ApplyUpdate updatePath execPath)
       (fst (applyUpdate updatePath execPath ls))"
| step_complete:
    "lifecycle_step ls (CompleteUpdate execPath outcome)
       (fst (completeUpdate execPath outcome ls))"
| step_clean:
    "needsCleaning ls \<Longrightarrow>
     lifecycle_step ls (Clean execPath err) (fst (clean execPath err ls))"

text \<open>The persisted states the lifecycle reaches from an empty \<^verbatim>\<open>localStorage\<close>.\<close>

inductive reachable :: "storage \<Rightarrow> bool" where
  reach_init: "reachable None"
| reach_step: "reachable ls \<Longrightarrow> lifecycle_step ls c ls' \<Longrightarrow> reachable ls'"

section \<open>Version comparison\<close>

text \<open>
  Modelled from the spec: the \<^verbatim>\<open>semver\<close> package (\<^verbatim>\<open>require('semver')\<close>, a
  dependency that is not part of the sources). The spec orders versions by "standard
  semantic-versioning precedence (major.minor.patch, pre-release rules)", with a
  pre-release version older than its corresponding release. A parsed version is its
  three numbers and its pre-release identifiers; build metadata does not take part in
  precedence. The functions follow the package's \<^verbatim>\<open>compareIdentifiers\<close>,
  \<^verbatim>\<open>compareMain\<close>, \<^verbatim>\<open>comparePre\<close>, \<^verbatim>\<open>compare\<close>, \<^verbatim>\<open>lt\<close> and \<^verbatim>\<open>gte\<close>.
\<close>

datatype ident = NumId nat | AlnumId string

record semver =
  major :: nat
  minor :: nat
  patch :: nat
  prerelease :: "ident list"

fun compare_nat :: "nat \<Rightarrow> nat \<Rightarrow> int" where
  "compare_nat a b = (if a < b then - 1 else if b < a then 1 else 0)"

text \<open>Strings compare by their code units, as JavaScript's \<^verbatim>\<open><\<close> does.\<close>

fun compare_string :: "string \<Rightarrow> string \<Rightarrow> int" where
  "compare_string [] [] = 0"
| "compare_string [] (y # ys) = - 1"
| "compare_string (x # xs) [] = 1"
| "compare_string (x # xs) (y # ys) =
     (if (of_char x :: nat) < of_char y then - 1
      else if (of_char y :: nat) < of_char x then 1
      else compare_string xs ys)"

fun compareIdentifiers :: "ident \<Rightarrow> ident \<Rightarrow> int" where
  "compareIdentifiers (NumId a) (NumId b) = compare_nat a b"
| "compareIdentifiers (NumId a) (AlnumId b) = - 1"
| "compareIdentifiers (AlnumId a) (NumId b) = 1"
| "compareIdentifiers (AlnumId a) (AlnumId b) = compare_string a b"

definition compareMain :: "semver \<Rightarrow> semver \<Rightarrow> int" where
  "compareMain a b =
     (if compare_nat (major a) (major b) \<noteq> 0 then compare_nat (major a) (major b)
      else if compare_nat (minor a) (minor b) \<noteq> 0 then compare_nat (minor a) (minor b)
      else compare_nat (patch a) (patch b))"

text \<open>The \<^verbatim>\<open>do ... while (++i)\<close> loop of \<^verbatim>\<open>comparePre\<close> over both identifier lists.\<close>

fun comparePre_loop :: "ident list \<Rightarrow> ident list \<Rightarrow> int" where
  "comparePre_loop [] [] = 0"
| "comparePre_loop (a # as) [] = 1"
| "comparePre_loop [] (b # bs) = - 1"
| "comparePre_loop (a # as) (b # bs) =
     (if a = b then comparePre_loop as bs else compareIdentifiers a b)"

definition comparePre :: "semver \<Rightarrow> semver \<Rightarrow> int" where
  "comparePre a b =
     (if prerelease a \<noteq> [] \<and> prerelease b = [] then - 1
      else if prerelease a = [] \<and> prerelease b \<noteq> [] then 1
      else if prerelease a = [] \<and> prerelease b = [] then 0
      else comparePre_loop (prerelease a) (prerelease b))"

definition semver_compare :: "semver \<Rightarrow> semver \<Rightarrow> int" where
  "semver_compare a b = (if compareMain a b \<noteq> 0 then compareMain a b else comparePre a b)"

definition semver_lt :: "semver \<Rightarrow> semver \<Rightarrow> bool" where
  "semver_lt a b = (semver_compare a b < 0)"

definition semver_gte :: "semver \<Rightarrow> semver \<Rightarrow> bool" where
  "semver_gte a b = (semver_compare a b \<ge> 0)"

section \<open>checkForUpdate\<close>

text \<open>The configuration the constructor reads from the application's manifest.\<close>

record config =
  currentVersion :: string
  remoteAddress :: string
  runtimesize :: nat
  isDevMode :: bool

text \<open>
  The remote manifest after \<^verbatim>\<open>JSON.parse\<close>: its \<^verbatim>\<open>version\<close> and \<^verbatim>\<open>update\<close>
  properties (\<^verbatim>\<open>undefined\<close> when the object has none) and its other fields.
\<close>

record manifest =
  version :: jsval
  update :: jsval
  extra :: "(string \<times> string) list"

record check_result =
  updateAvailable :: bool
  updateInformation :: manifest

text \<open>What the \<^verbatim>\<open>request\<close> callback receives: \<^verbatim>\<open>(error, response, body)\<close>.\<close>

record reply =
  reply_error :: "string option"
  reply_statusCode :: "nat option"   \<comment> \<open>\<open>None\<close>: \<^verbatim>\<open>response\<close> is \<^verbatim>\<open>undefined\<close>\<close>
  reply_body :: string

text \<open>An exception that leaves a callback uncaught.\<close>

datatype exn = TypeError | SyntaxError | StreamError string

text \<open>
  \<^verbatim>\<open>semver.lt(a, b)\<close> on two JavaScript values: the package throws a
  \<^verbatim>\<open>TypeError\<close> on a value that is not a valid version. \<open>parse_version\<close> is the
  package's parser.
\<close>

definition lt_js ::
  "(string \<Rightarrow> semver option) \<Rightarrow> jsval \<Rightarrow> jsval \<Rightarrow> exn + bool" where
  "lt_js parse_version a b =
     (case (a, b) of
        (Str x, Str y) \<Rightarrow>
          (case (parse_version x, parse_version y) of
             (Some va, Some vb) \<Rightarrow> Inr (semver_lt va vb)
           | _ \<Rightarrow> Inl TypeError)
      | _ \<Rightarrow> Inl TypeError)"

text \<open>
  \<^verbatim>\<open>checkForUpdate\<close>: the state of \<^verbatim>\<open>deferred.promise\<close> once the request's callback
  has run on \<open>r\<close>, and the exception the callback ended with, if any. \<open>JSON_parse\<close>
  is \<^verbatim>\<open>JSON.parse\<close> read as a manifest (\<open>None\<close>: it throws a \<^verbatim>\<open>SyntaxError\<close>).
\<close>

definition checkForUpdate ::
  "config \<Rightarrow> (string \<Rightarrow> manifest option) \<Rightarrow> (string \<Rightarrow> semver option) \<Rightarrow> reply
     \<Rightarrow> check_result promise \<times> exn option" where
  "checkForUpdate self JSON_parse parse_version r =
     (let d1 = (case reply_error r of Some e \<Rightarrow> reject (RequestError e) Pending
                | None \<Rightarrow> Pending)
      in case reply_statusCode r of
           None \<Rightarrow> (d1, Some TypeError)
         | Some statusCode \<Rightarrow>
             (let d2 = (if statusCode \<noteq> 200 then reject (StatusCode statusCode) d1 else d1)
              in if statusCode = 200 then
                   (case JSON_parse (reply_body r) of
                      None \<Rightarrow> (d2, Some SyntaxError)
                    | Some remoteManifest \<Rightarrow>
                        (case lt_js parse_version (Str (currentVersion self))
                                (version remoteManifest) of
                           Inl e \<Rightarrow> (d2, Some e)
                         | Inr is_lt \<Rightarrow>
                             (resolve \<lparr>updateAvailable = is_lt,
                                       updateInformation = remoteManifest\<rparr> d2, None)))
                 else (d2, None)))"

section \<open>downloadUpdate\<close>

type_synonym byte = "8 word"

text \<open>
  The filesystem maps a path to the bytes of the file there. A read stream on a path
  with no file emits \<^verbatim>\<open>'error'\<close>.
\<close>

type_synonym filesystem = "string \<rightharpoonup> byte list"

text \<open>
  \<^verbatim>\<open>fs.createReadStream(path, {start: s, end: e})\<close> reads the bytes from offset
  \<open>s\<close> to offset \<open>e\<close>, both inclusive (Node's \<^verbatim>\<open>fs\<close> documentation), and stops at
  the end of the file.
\<close>

definition read_range :: "byte list \<Rightarrow> nat \<Rightarrow> nat \<Rightarrow> byte list" where
  "read_range bs start end_incl = take (end_incl + 1 - start) (drop start bs)"

text \<open>
  What \<^verbatim>\<open>request.get\<close> delivers: an \<^verbatim>\<open>'error'\<close> event, or a \<^verbatim>\<open>'response'\<close> event
  with its status code and its \<^verbatim>\<open>content-length\<close> header (the number the header
  holds, \<open>None\<close> when the response has no such header), followed by one \<^verbatim>\<open>'data'\<close>
  event per chunk and by \<^verbatim>\<open>'end'\<close>.
\<close>

datatype http_reply =
    HttpError string
  | HttpResponse nat "nat option" "byte list list"

text \<open>The world \<^verbatim>\<open>downloadUpdate\<close> runs in.\<close>

record dl_env =
  process_execPath :: string               \<comment> \<open>\<^verbatim>\<open>process.execPath\<close>\<close>
  date_now :: string                       \<comment> \<open>\<^verbatim>\<open>Date.now().toString()\<close>\<close>
  fs :: filesystem
  mkdirp_err :: "string option"            \<comment> \<open>the error \<^verbatim>\<open>mkdirp\<close> calls back with\<close>
  runtime_write_err :: "string option"     \<comment> \<open>\<^verbatim>\<open>'error'\<close> of \<^verbatim>\<open>runtimeStream\<close>\<close>
  http :: http_reply
  zip_write_err :: "string option"         \<comment> \<open>\<^verbatim>\<open>'error'\<close> of the stream on \<^verbatim>\<open>update.zip\<close>\<close>
  append_err :: "string option"            \<comment> \<open>\<^verbatim>\<open>'error'\<close> of the appending \<^verbatim>\<open>writeStream\<close>\<close>
  unlink_err :: "string option"
  rename_err :: "string option"

datatype progress = TotalSize "nat option" | ReceivedSize "nat option"

text \<open>
  The state a run threads through its callbacks: the files, the deferred, the progress
  notifications delivered, the operations issued and the exceptions left uncaught.
\<close>

record dl_state =
  files :: filesystem
  deferred :: "string promise"
  notified :: "progress list"
  effects :: "effect list"
  uncaught :: "exn list"

definition d_reject :: "reason \<Rightarrow> dl_state \<Rightarrow> dl_state" where
  "d_reject r st = st\<lparr>deferred := reject r (deferred st)\<rparr>"

definition d_resolve :: "string \<Rightarrow> dl_state \<Rightarrow> dl_state" where
  "d_resolve p st = st\<lparr>deferred := resolve p (deferred st)\<rparr>"

text \<open>Q delivers a progress notification only while the promise is pending.\<close>

definition d_notify :: "progress \<Rightarrow> dl_state \<Rightarrow> dl_state" where
  "d_notify n st = (if deferred st = Pending then st\<lparr>notified := notified st @ [n]\<rparr> else st)"

definition d_do :: "effect \<Rightarrow> dl_state \<Rightarrow> dl_state" where
  "d_do e st = st\<lparr>effects := effects st @ [e]\<rparr>"

definition file_append :: "string \<Rightarrow> byte list \<Rightarrow> dl_state \<Rightarrow> dl_state" where
  "file_append p bs st =
     st\<lparr>files := (files st)(p \<mapsto> (case files st p of None \<Rightarrow> [] | Some old \<Rightarrow> old) @ bs)\<rparr>"

text \<open>
  The \<^verbatim>\<open>'finish'\<close> handler of the appending stream: \<^verbatim>\<open>fs.unlink\<close> and \<^verbatim>\<open>fs.rename\<close>
  are issued one after the other and their callbacks run in that order.
\<close>

definition on_merge_finish :: "dl_env \<Rightarrow> string \<Rightarrow> string \<Rightarrow> dl_state \<Rightarrow> dl_state" where
  "on_merge_finish env runtimePath updatePath st =
     (let st1 = d_do (Unlink updatePath) st;
          newExecPath = path_join (path_dirname (process_execPath env)) ''update.exe'';
          st2 = d_do (Rename runtimePath newExecPath) st1;
          st3 = (case unlink_err env of
                   Some e \<Rightarrow> d_reject (FsError e) st2
                 | None \<Rightarrow> st2\<lparr>files := (files st2)(updatePath := None)\<rparr>);
          st4 = (case rename_err env of
                   Some e \<Rightarrow> d_reject (FsError e) st3
                 | None \<Rightarrow>
                     st3\<lparr>files := ((files st3)(runtimePath := None))
                                     (newExecPath := files st3 runtimePath)\<rparr>)
      in d_resolve newExecPath st4)"

text \<open>The \<^verbatim>\<open>'end'\<close> handler of the request: append \<^verbatim>\<open>update.zip\<close> to the runtime.\<close>

definition on_request_end :: "dl_env \<Rightarrow> string \<Rightarrow> string \<Rightarrow> dl_state \<Rightarrow> dl_state" where
  "on_request_end env runtimePath updatePath st =
     (let st1 = d_do (CreateAppendStream runtimePath) (d_do (CreateReadStream updatePath) st)
      in case files st1 updatePath of
           None \<Rightarrow> d_reject (FsError ''ENOENT'') st1
         | Some zipped \<Rightarrow>
             (case append_err env of
                Some e \<Rightarrow> d_reject (FsError e) st1
              | None \<Rightarrow> on_merge_finish env runtimePath updatePath (file_append runtimePath zipped st1)))"

text \<open>
  The \<^verbatim>\<open>'data'\<close> handler, once per chunk: \<^verbatim>\<open>receivedSize += data.length\<close> and a
  notification; \<open>None\<close> is the \<^verbatim>\<open>NaN\<close> that \<^verbatim>\<open>undefined + n\<close> gives when no
  response with status 200 has set \<^verbatim>\<open>receivedSize = 0\<close>. When the request is piped
  to \<^verbatim>\<open>update.zip\<close>, the chunk is written there.
\<close>

fun on_data :: "bool \<Rightarrow> string \<Rightarrow> byte list list \<Rightarrow> nat option \<Rightarrow> dl_state \<Rightarrow> dl_state" where
  "on_data piped updatePath [] receivedSize st = st"
| "on_data piped updatePath (chunk # chunks) receivedSize st =
     (let receivedSize' = (case receivedSize of None \<Rightarrow> None
                           | Some n \<Rightarrow> Some (n + length chunk));
          st1 = d_notify (ReceivedSize receivedSize') st;
          st2 = (if piped then file_append updatePath chunk st1 else st1)
      in on_data piped updatePath chunks receivedSize' st2)"

text \<open>The \<^verbatim>\<open>'finish'\<close> handler of \<^verbatim>\<open>runtimeStream\<close>: download the update zip.\<close>

definition on_runtime_finish ::
  "dl_env \<Rightarrow> string \<Rightarrow> string \<Rightarrow> string \<Rightarrow> dl_state \<Rightarrow> dl_state" where
  "on_runtime_finish env updateLocation tmpPath runtimePath st =
     (let updatePath = path_join tmpPath ''update.zip'';
          st1 = d_do (HttpGet updateLocation) st
      in case http env of
           HttpError e \<Rightarrow> d_reject (RequestError e) st1
         | HttpResponse statusCode content_length chunks \<Rightarrow>
             if statusCode \<noteq> 200 then
               on_request_end env runtimePath updatePath
                 (on_data False updatePath chunks None (d_reject UpdateNotFound st1))
             else
               (let st2 = d_do (CreateWriteStream updatePath)
                            (d_notify (TotalSize content_length) st1)
                in case zip_write_err env of
                     Some e \<Rightarrow> st2\<lparr>uncaught := uncaught st2 @ [StreamError e]\<rparr>
                   | None \<Rightarrow>
                       on_request_end env runtimePath updatePath
                         (on_data True updatePath chunks (Some 0)
                            (st2\<lparr>files := (files st2)(updatePath \<mapsto> [])\<rparr>))))"

text \<open>
  \<^verbatim>\<open>downloadUpdate(updateLocation)\<close>: the state when the run has come to rest. The
  read stream on the executable is created with \<^verbatim>\<open>{start: 0, end: this.runtimesize}\<close>.
\<close>

definition downloadUpdate :: "config \<Rightarrow> dl_env \<Rightarrow> string \<Rightarrow> dl_state" where
  "downloadUpdate self env updateLocation =
     (let st0 = \<lparr>files = fs env, deferred = Pending, notified = [], effects = [],
                 uncaught = []\<rparr>
      in if isDevMode self then st0\<lparr>deferred := Rejected DevMode\<rparr>
         else
           (let execPath = process_execPath env;
                st1 = d_do (CreateReadRange execPath 0 (runtimesize self)) st0;
                st2 = (case fs env execPath of
                         None \<Rightarrow> d_reject (FsError ''ENOENT'') st1
                       | Some exe \<Rightarrow> st1);
                tmpPath = path_join (path_join (path_dirname execPath) ''tmp'') (date_now env);
                st3 = d_do (Mkdirp tmpPath) st2;
                st4 = (case mkdirp_err env of
                         Some e \<Rightarrow> d_reject (FsError e) st3
                       | None \<Rightarrow> st3);
                runtimePath = path_join tmpPath ''exportednw'';
                st5 = d_do (CreateWriteStream runtimePath) st4
            in case runtime_write_err env of
                 Some e \<Rightarrow> d_reject (FsError e) st5
               | None \<Rightarrow>
                   (case fs env execPath of
                      None \<Rightarrow> st5\<lparr>files := (files st5)(runtimePath \<mapsto> [])\<rparr>
                    | Some exe \<Rightarrow>
                        on_runtime_finish env updateLocation tmpPath runtimePath
                          (st5\<lparr>files := (files st5)
                                 (runtimePath \<mapsto> read_range exe 0 (runtimesize self))\<rparr>))))"

section \<open>Progress notifications\<close>

text \<open>
  The values \<^verbatim>\<open>receivedSize\<close> takes over a list of chunk lengths, starting from
  \<open>acc\<close>: the running sums.
\<close>

fun running_sums :: "nat \<Rightarrow> nat list \<Rightarrow> nat list" where
  "running_sums acc [] = []"
| "running_sums acc (n # ns) = (acc + n) # running_sums (acc + n) ns"

text \<open>
  The first notification is \<^verbatim>\<open>{totalSize: t}\<close>, the last one is
  \<^verbatim>\<open>{receivedSize: r}\<close>, and the two values are the same.
\<close>

definition final_received_equals_total :: "progress list \<Rightarrow> bool" where
  "final_received_equals_total ns =
     (case ns of
        TotalSize t # rest \<Rightarrow>
          (case rev rest of ReceivedSize r # _ \<Rightarrow> r = t | _ \<Rightarrow> False)
      | _ \<Rightarrow> False)"

section \<open>Example inputs\<close>

text \<open>Concrete inputs on which the theorems below are run.\<close>

definition example_parse_version :: "string \<Rightarrow> semver option" where
  "example_parse_version s =
     (if s = ''1.1.0-beta.2'' then
        Some \<lparr>major = 1, minor = 1, patch = 0, prerelease = [AlnumId ''beta'', NumId 2]\<rparr>
      else if s = ''1.1.0'' then Some \<lparr>major = 1, minor = 1, patch = 0, prerelease = []\<rparr>
      else None)"

definition example_manifest :: manifest where
  "example_manifest =
     \<lparr>version = Str ''1.1.0'', update = Str ''http://x/u.zip'', extra = []\<rparr>"

definition example_JSON_parse :: "string \<Rightarrow> manifest option" where
  "example_JSON_parse s =
     (if s = ''{\"version\":\"1.1.0\",\"update\":\"http://x/u.zip\"}''
      then Some example_manifest else None)"

definition example_config :: config where
  "example_config =
     \<lparr>currentVersion = ''1.1.0-beta.2'', remoteAddress = ''http://x/latest.json'',
      runtimesize = 1000, isDevMode = False\<rparr>"

text \<open>
  An installed application whose executable is a runtime of 1000 bytes followed by
  the first bytes of its payload, and a server that sends a payload of 2000 bytes in
  two chunks with a \<^verbatim>\<open>content-length\<close> header.
\<close>

definition example_env :: dl_env where
  "example_env =
     \<lparr>process_execPath = ''C:/app/app.exe'', date_now = ''1430000000000'',
      fs = [''C:/app/app.exe'' \<mapsto> replicate 1000 0x90 @ [0x50, 0x4B, 0x03, 0x04]],
      mkdirp_err = None, runtime_write_err = None,
      http = HttpResponse 200 (Some 2000) [replicate 1500 0x11, replicate 500 0x22],
      zip_write_err = None, append_err = None, unlink_err = None, rename_err = None\<rparr>"

text \<open>The same, with a server that sends three bytes and no \<^verbatim>\<open>content-length\<close> header.\<close>

definition example_chunked_env :: dl_env where
  "example_chunked_env = example_env\<lparr>http := HttpResponse 200 None [[1, 2, 3]]\<rparr>"

definition example_devel_config :: config where
  "example_devel_config = example_config\<lparr>isDevMode := True\<rparr>"

section \<open>The persisted lifecycle\<close>

lemmas names_defs = MODE_UPDATE_def MODE_CLEAN_def DATA_MODE_def DATA_EXECPATH_def

lemma field_applyUpdate:
  "field k (fst (applyUpdate p e ls)) =
     (if \<not> truthy p then field k ls
      else if k = DATA_EXECPATH then Some e
      else if k = DATA_MODE then Some MODE_UPDATE
      else field k ls)"
  by (auto simp add: applyUpdate_def field_def storeData_def names_defs split: option.splits)

lemma field_removeData:
  "field k (removeData k' ls) = (if k = k' then None else field k ls)"
  by (simp add: field_def removeData_def split: option.splits)

lemma field_storeData1:
  "field k (storeData [(k', v)] ls) = (if k = k' then Some v else field k ls)"
  by (simp add: field_def storeData_def split: option.splits)

lemma isUpdating_field: "isUpdating ls = (field DATA_MODE ls = Some MODE_UPDATE)"
  by (auto simp add: isUpdating_def getData_def field_def split: option.splits)

lemma needsCleaning_field: "needsCleaning ls = (field DATA_MODE ls = Some MODE_CLEAN)"
  by (auto simp add: needsCleaning_def getData_def field_def split: option.splits)

lemma field_clean:
  "field k (fst (clean e err ls)) = (if k = DATA_MODE then None else field k ls)"
  by (simp add: clean_def Let_def field_removeData)

lemma getData_execPath_field:
  "getData DATA_EXECPATH ls = Str p \<longleftrightarrow> field DATA_EXECPATH ls = Some p"
  by (auto simp add: getData_def field_def split: option.splits)

lemma completeUpdate_write_error:
  assumes "getData DATA_EXECPATH ls = Str old" and "old \<noteq> []" and "old \<noteq> new"
  shows "completeUpdate new (WriteError e) ls = (ls, retry_effects new old, RetryScheduled)"
  using assms by (simp add: completeUpdate_def retry_effects_def)

lemma completeUpdate_finish:
  assumes "getData DATA_EXECPATH ls = Str old" and "old \<noteq> []" and "old \<noteq> new"
  shows "completeUpdate new Finish ls =
           (storeData [(DATA_MODE, MODE_CLEAN)] (removeData DATA_EXECPATH ls),
            [CreateReadStream new, CreateWriteStream old] @ respawn old, Respawned)"
  using assms by (simp add: completeUpdate_def)

text \<open>
  Claim C2. When \<^verbatim>\<open>applyUpdate\<close> has persisted its data (its argument is a
  non-empty path), the stored state makes \<^verbatim>\<open>isUpdating()\<close> true for the process
  that starts next. When that process runs from another path than the saved one and
  its copy finishes, \<^verbatim>\<open>completeUpdate\<close> respawns and leaves a state in which
  \<^verbatim>\<open>isUpdating()\<close> is false and \<^verbatim>\<open>needsCleaning()\<close> is true. After \<^verbatim>\<open>clean()\<close>,
  whether \<^verbatim>\<open>rimraf\<close> failed or not, both are false.
\<close>

theorem lifecycle_persisted_phases:
  assumes "updatePath \<noteq> []" and "execPath \<noteq> []" and "updaterPath \<noteq> execPath"
  shows "let s1 = fst (applyUpdate (Str updatePath) execPath ls);
             r2 = completeUpdate updaterPath Finish s1;
             s2 = fst r2;
             s3 = fst (clean cleanerPath rimraf_err s2)
         in isUpdating s1 \<and> snd (snd r2) = Respawned
            \<and> \<not> isUpdating s2 \<and> needsCleaning s2
            \<and> \<not> isUpdating s3 \<and> \<not> needsCleaning s3"
proof -
  define s1 where "s1 = fst (applyUpdate (Str updatePath) execPath ls)"
  have saved: "getData DATA_EXECPATH s1 = Str execPath"
    using assms(1) by (simp add: s1_def getData_execPath_field field_applyUpdate)
  have up: "isUpdating s1"
    using assms(1) by (simp add: s1_def isUpdating_field field_applyUpdate names_defs)
  have fin: "completeUpdate updaterPath Finish s1 =
      (storeData [(DATA_MODE, MODE_CLEAN)] (removeData DATA_EXECPATH s1),
       [CreateReadStream updaterPath, CreateWriteStream execPath] @ respawn execPath, Respawned)"
    by (rule completeUpdate_finish[OF saved assms(2) not_sym[OF assms(3)]])
  show ?thesis
    unfolding Let_def s1_def[symmetric] fin
    using up
    by (simp add: isUpdating_field needsCleaning_field field_clean field_storeData1
        field_removeData names_defs)
qed

theorem lifecycle_persisted_phases_witness:
  "isUpdating (fst (applyUpdate (Str ''C:/app/update.exe'') ''C:/app/app.exe'' None))
   \<and> needsCleaning (fst (completeUpdate ''C:/app/update.exe'' Finish
        (fst (applyUpdate (Str ''C:/app/update.exe'') ''C:/app/app.exe'' None))))
   \<and> \<not> needsCleaning (fst (clean ''C:/app/app.exe'' None
        (fst (completeUpdate ''C:/app/update.exe'' Finish
          (fst (applyUpdate (Str ''C:/app/update.exe'') ''C:/app/app.exe'' None))))))"
  using lifecycle_persisted_phases[of "''C:/app/update.exe''" "''C:/app/app.exe''"
      "''C:/app/update.exe''" None "''C:/app/app.exe''" None]
  by (simp add: Let_def)

text \<open>
  Claim C4. When the saved executable path is the path of the running executable
  (a process path is never the empty string), \<^verbatim>\<open>completeUpdate\<close> removes both the
  mode and the saved path, so that neither \<^verbatim>\<open>isUpdating()\<close> nor \<^verbatim>\<open>needsCleaning()\<close>
  holds afterwards, and it returns without opening a stream, setting a timer or
  spawning a process, however a copy would have ended.
\<close>

theorem completeUpdate_self_target:
  assumes "getData DATA_EXECPATH ls = Str execPath" and "execPath \<noteq> []"
  shows "snd (completeUpdate execPath outcome ls) = ([], Returned)
         \<and> getData DATA_MODE (fst (completeUpdate execPath outcome ls)) = Undefined
         \<and> getData DATA_EXECPATH (fst (completeUpdate execPath outcome ls)) = Undefined
         \<and> \<not> isUpdating (fst (completeUpdate execPath outcome ls))
         \<and> \<not> needsCleaning (fst (completeUpdate execPath outcome ls))"
  using assms
  by (auto simp add: completeUpdate_def isUpdating_def needsCleaning_def getData_def
      removeData_def names_defs split: option.splits)

theorem completeUpdate_self_target_witness:
  "getData DATA_EXECPATH (Some [DATA_MODE \<mapsto> MODE_UPDATE, DATA_EXECPATH \<mapsto> ''C:/app/app.exe''])
     = Str ''C:/app/app.exe''
   \<and> snd (completeUpdate ''C:/app/app.exe'' Finish
        (Some [DATA_MODE \<mapsto> MODE_UPDATE, DATA_EXECPATH \<mapsto> ''C:/app/app.exe'']))
     = ([], Returned)
   \<and> \<not> isUpdating (fst (completeUpdate ''C:/app/app.exe'' Finish
        (Some [DATA_MODE \<mapsto> MODE_UPDATE, DATA_EXECPATH \<mapsto> ''C:/app/app.exe''])))"
proof -
  have h: "getData DATA_EXECPATH
      (Some [DATA_MODE \<mapsto> MODE_UPDATE, DATA_EXECPATH \<mapsto> ''C:/app/app.exe''])
      = Str ''C:/app/app.exe''"
    by (simp add: getData_def)
  show ?thesis
    using h completeUpdate_self_target[OF h, of Finish] by simp
qed

text \<open>
  Claim C10. When no executable path is saved (\<^verbatim>\<open>getData\<close> gives \<^verbatim>\<open>undefined\<close> or
  \<^verbatim>\<open>null\<close>), whatever the stored mode is, \<^verbatim>\<open>completeUpdate\<close> returns at once: the
  stored state is the one it found, no stream is opened, no timer is set, no process
  is spawned and nothing is thrown.
\<close>

theorem completeUpdate_without_saved_path:
  assumes "getData DATA_EXECPATH ls = Undefined \<or> getData DATA_EXECPATH ls = Null"
  shows "completeUpdate execPath outcome ls = (ls, [], Returned)"
  using assms by (auto simp add: completeUpdate_def)

theorem completeUpdate_without_saved_path_witness:
  "isUpdating (Some [DATA_MODE \<mapsto> MODE_UPDATE])
   \<and> getData DATA_EXECPATH (Some [DATA_MODE \<mapsto> MODE_UPDATE]) = Undefined
   \<and> completeUpdate ''C:/app/update.exe'' Finish (Some [DATA_MODE \<mapsto> MODE_UPDATE])
       = (Some [DATA_MODE \<mapsto> MODE_UPDATE], [], Returned)"
proof -
  have h: "getData DATA_EXECPATH (Some [DATA_MODE \<mapsto> MODE_UPDATE]) = Undefined"
    by (simp add: getData_def names_defs)
  have u: "isUpdating (Some [DATA_MODE \<mapsto> MODE_UPDATE])"
    by (simp add: isUpdating_def getData_def)
  show ?thesis
    using h u completeUpdate_without_saved_path[of "Some [DATA_MODE \<mapsto> MODE_UPDATE]"
        "''C:/app/update.exe''" Finish]
    by simp
qed

lemma loop_retries:
  assumes "getData DATA_EXECPATH ls = Str old" and "old \<noteq> []" and "old \<noteq> new"
    and "\<forall>j<n. \<exists>e. outcomes (i + j) = WriteError e"
  shows "completeUpdate_loop new outcomes i ls tr =
         completeUpdate_loop new outcomes (i + n) ls
           (tr @ concat (replicate n (retry_effects new old)))"
  using assms(4)
proof (induction n arbitrary: i tr)
  case 0
  then show ?case by simp
next
  case (Suc n)
  have "0 < Suc n \<longrightarrow> (\<exists>e. outcomes (i + 0) = WriteError e)"
    using Suc.prems by (rule spec)
  then obtain e where e: "outcomes i = WriteError e" by auto
  have rest: "\<forall>j<n. \<exists>e. outcomes (Suc i + j) = WriteError e"
  proof (intro allI impI)
    fix j assume "j < n"
    then have lt: "Suc j < Suc n" by simp
    have "Suc j < Suc n \<longrightarrow> (\<exists>e. outcomes (i + Suc j) = WriteError e)"
      using Suc.prems by (rule spec)
    with lt show "\<exists>e. outcomes (Suc i + j) = WriteError e" by simp
  qed
  have "completeUpdate_loop new outcomes i ls tr =
        completeUpdate_loop new outcomes (Suc i) ls (tr @ retry_effects new old)"
    by (subst completeUpdate_loop.simps)
       (simp add: e completeUpdate_write_error[OF assms(1-3)])
  also have "\<dots> = completeUpdate_loop new outcomes (Suc i + n) ls
        ((tr @ retry_effects new old) @ concat (replicate n (retry_effects new old)))"
    by (rule Suc.IH[OF rest])
  finally show ?case by simp
qed

lemma loop_finish:
  assumes "getData DATA_EXECPATH ls = Str old" and "old \<noteq> []" and "old \<noteq> new"
    and "outcomes i = Finish"
  shows "completeUpdate_loop new outcomes i ls tr =
         Some (storeData [(DATA_MODE, MODE_CLEAN)] (removeData DATA_EXECPATH ls),
               tr @ [CreateReadStream new, CreateWriteStream old] @ respawn old, Respawned)"
  by (subst completeUpdate_loop.simps)
     (simp add: assms(4) completeUpdate_finish[OF assms(1-3)])

lemma loop_never_returns:
  "completeUpdate_loop a oc k ls' tr' = Some r \<Longrightarrow>
   \<not> ((\<forall>j. \<exists>e. oc j = WriteError e) \<and> getData DATA_EXECPATH ls' = Str old
        \<and> old \<noteq> [] \<and> old \<noteq> a)"
proof (induction rule: completeUpdate_loop.raw_induct[rotated 1, consumes 1])
  case (1 f a oc k ls' tr' r)
  show ?case
  proof
    assume h: "(\<forall>j. \<exists>e. oc j = WriteError e) \<and> getData DATA_EXECPATH ls' = Str old
        \<and> old \<noteq> [] \<and> old \<noteq> a"
    then obtain e where e: "oc k = WriteError e" by auto
    from h have cu: "completeUpdate a (WriteError e) ls' =
        (ls', retry_effects a old, RetryScheduled)"
      by (simp add: completeUpdate_write_error)
    from 1(2) have "f a oc (Suc k) ls' (tr' @ retry_effects a old) = Some r"
      by (simp add: e cu)
    from 1(1)[OF this] h show False by simp
  qed
qed

text \<open>
  Claim C7. When a path is saved that is not the path of the running executable, a
  write error of the copy throws nothing, leaves the stored state as it was and sets a
  timer of 1000 ms that calls \<^verbatim>\<open>completeUpdate\<close> again. The loop this gives has no
  bound: after any number \<open>n\<close> of failed writes followed by a finished copy it has
  issued \<open>n\<close> retries and then stored mode \<^verbatim>\<open>CLEAN\<close>, removed the saved path and
  respawned; when every write fails it never returns.
\<close>

theorem completeUpdate_write_error_retries:
  assumes "getData DATA_EXECPATH ls = Str old" and "old \<noteq> []" and "old \<noteq> new"
  shows "(\<forall>e. completeUpdate new (WriteError e) ls = (ls, retry_effects new old, RetryScheduled))
       \<and> retry_effects new old = [CreateReadStream new, CreateWriteStream old, SetTimeout 1000]
       \<and> (\<forall>outcomes n.
             (\<forall>j<n. \<exists>e. outcomes j = WriteError e) \<and> outcomes n = Finish \<longrightarrow>
             completeUpdate_loop new outcomes 0 ls [] =
               Some (storeData [(DATA_MODE, MODE_CLEAN)] (removeData DATA_EXECPATH ls),
                     concat (replicate n (retry_effects new old))
                       @ [CreateReadStream new, CreateWriteStream old] @ respawn old,
                     Respawned))
       \<and> (\<forall>outcomes.
             (\<forall>j. \<exists>e. outcomes j = WriteError e) \<longrightarrow>
             completeUpdate_loop new outcomes 0 ls [] = None)"
proof (intro conjI allI impI)
  fix e
  show "completeUpdate new (WriteError e) ls = (ls, retry_effects new old, RetryScheduled)"
    by (rule completeUpdate_write_error[OF assms])
next
  show "retry_effects new old = [CreateReadStream new, CreateWriteStream old, SetTimeout 1000]"
    by (simp add: retry_effects_def)
next
  fix outcomes :: "nat \<Rightarrow> copy_outcome" and n
  assume h: "(\<forall>j<n. \<exists>e. outcomes j = WriteError e) \<and> outcomes n = Finish"
  then have fails: "\<forall>j<n. \<exists>e. outcomes (0 + j) = WriteError e" by simp
  from h have fin: "outcomes n = Finish" by simp
  have "completeUpdate_loop new outcomes 0 ls [] =
        completeUpdate_loop new outcomes (0 + n) ls
          ([] @ concat (replicate n (retry_effects new old)))"
    using assms fails by (rule loop_retries)
  also have "\<dots> = completeUpdate_loop new outcomes n ls
          (concat (replicate n (retry_effects new old)))"
    by simp
  also have "\<dots> = Some (storeData [(DATA_MODE, MODE_CLEAN)] (removeData DATA_EXECPATH ls),
                concat (replicate n (retry_effects new old))
                  @ [CreateReadStream new, CreateWriteStream old] @ respawn old,
                Respawned)"
    using assms fin by (rule loop_finish)
  finally show "completeUpdate_loop new outcomes 0 ls [] =
          Some (storeData [(DATA_MODE, MODE_CLEAN)] (removeData DATA_EXECPATH ls),
                concat (replicate n (retry_effects new old))
                  @ [CreateReadStream new, CreateWriteStream old] @ respawn old,
                Respawned)"
    .
next
  fix outcomes :: "nat \<Rightarrow> copy_outcome"
  assume h: "\<forall>j. \<exists>e. outcomes j = WriteError e"
  show "completeUpdate_loop new outcomes 0 ls [] = None"
  proof (cases "completeUpdate_loop new outcomes 0 ls []")
    case None
    then show ?thesis .
  next
    case (Some r)
    from loop_never_returns[OF Some, of old] h assms show ?thesis by simp
  qed
qed


theorem completeUpdate_write_error_retries_witness:
  "completeUpdate ''C:/app/update.exe'' (WriteError ''EBUSY'')
      (Some [DATA_MODE \<mapsto> MODE_UPDATE, DATA_EXECPATH \<mapsto> ''C:/app/app.exe''])
    = (Some [DATA_MODE \<mapsto> MODE_UPDATE, DATA_EXECPATH \<mapsto> ''C:/app/app.exe''],
       [CreateReadStream ''C:/app/update.exe'', CreateWriteStream ''C:/app/app.exe'',
        SetTimeout 1000],
       RetryScheduled)
   \<and> (\<exists>ls' es. completeUpdate_loop ''C:/app/update.exe''
          (\<lambda>i. if i < 2 then WriteError ''EBUSY'' else Finish) 0
          (Some [DATA_MODE \<mapsto> MODE_UPDATE, DATA_EXECPATH \<mapsto> ''C:/app/app.exe'']) []
        = Some (ls', es, Respawned) \<and> needsCleaning ls' \<and> length es = 11)"
proof -
  let ?ls = "Some [DATA_MODE \<mapsto> MODE_UPDATE, DATA_EXECPATH \<mapsto> ''C:/app/app.exe'']"
  let ?oc = "\<lambda>i::nat. if i < 2 then WriteError ''EBUSY'' else Finish"
  have h: "getData DATA_EXECPATH ?ls = Str ''C:/app/app.exe''"
    by (simp add: getData_def)
  have t: "''C:/app/app.exe'' \<noteq> []" "''C:/app/app.exe'' \<noteq> ''C:/app/update.exe''"
    by simp_all
  note main = completeUpdate_write_error_retries[OF h t]
  have one: "completeUpdate ''C:/app/update.exe'' (WriteError ''EBUSY'') ?ls
      = (?ls, [CreateReadStream ''C:/app/update.exe'', CreateWriteStream ''C:/app/app.exe'',
               SetTimeout 1000], RetryScheduled)"
    using main by simp
  have oc: "(\<forall>j<2. \<exists>e. ?oc j = WriteError e) \<and> ?oc 2 = Finish" by simp
  have run: "completeUpdate_loop ''C:/app/update.exe'' ?oc 0 ?ls [] =
        Some (storeData [(DATA_MODE, MODE_CLEAN)] (removeData DATA_EXECPATH ?ls),
              concat (replicate 2 (retry_effects ''C:/app/update.exe'' ''C:/app/app.exe''))
                @ [CreateReadStream ''C:/app/update.exe'', CreateWriteStream ''C:/app/app.exe'']
                @ respawn ''C:/app/app.exe'',
              Respawned)"
    using oc
    by (rule main[THEN conjunct2, THEN conjunct2, THEN conjunct1, THEN spec, THEN spec, THEN mp])
  have nc: "needsCleaning (storeData [(DATA_MODE, MODE_CLEAN)] (removeData DATA_EXECPATH ?ls))"
    by (simp add: needsCleaning_field field_storeData1)
  have len: "length (concat (replicate 2 (retry_effects ''C:/app/update.exe'' ''C:/app/app.exe''))
                @ [CreateReadStream ''C:/app/update.exe'', CreateWriteStream ''C:/app/app.exe'']
                @ respawn ''C:/app/app.exe'') = 11"
    by (simp add: retry_effects_def respawn_def numeral_2_eq_2)
  show ?thesis
    using one run nc len by simp
qed

lemma field_completeUpdate_cases:
  "fst (completeUpdate e oc ls) = ls
   \<or> (field DATA_EXECPATH (fst (completeUpdate e oc ls)) = None
      \<and> field DATA_MODE (fst (completeUpdate e oc ls)) \<noteq> Some MODE_UPDATE)"
  by (auto simp add: completeUpdate_def Let_def field_removeData field_storeData1 names_defs
      split: copy_outcome.splits)

lemma step_invariant:
  assumes "lifecycle_step ls c ls'" and "field DATA_EXECPATH ls \<noteq> None \<longrightarrow> isUpdating ls"
  shows "field DATA_EXECPATH ls' \<noteq> None \<longrightarrow> isUpdating ls'"
  using assms
proof (cases rule: lifecycle_step.cases)
  case (step_apply updatePath execPath)
  with assms(2) show ?thesis
    by (simp add: field_applyUpdate isUpdating_field names_defs)
next
  case (step_complete execPath outcome)
  with assms(2) field_completeUpdate_cases[of execPath outcome ls] show ?thesis
    by auto
next
  case (step_clean execPath err)
  with assms(2) show ?thesis
    by (auto simp add: field_clean isUpdating_field needsCleaning_field names_defs)
qed

lemma reachable_invariant:
  "reachable ls \<Longrightarrow> field DATA_EXECPATH ls \<noteq> None \<longrightarrow> isUpdating ls"
proof (induction rule: reachable.induct)
  case reach_init
  show ?case by (simp add: field_def)
next
  case (reach_step ls c ls')
  then show ?case using step_invariant by blast
qed

lemma step_leaves_updating:
  assumes "lifecycle_step ls c ls'" "isUpdating ls" "\<not> isUpdating ls'"
  shows "field DATA_EXECPATH ls' = None"
  using assms
proof (cases rule: lifecycle_step.cases)
  case (step_apply updatePath execPath)
  with assms(2,3) show ?thesis
    by (simp add: field_applyUpdate isUpdating_field names_defs split: if_splits)
next
  case (step_complete execPath outcome)
  with assms(2,3) field_completeUpdate_cases[of execPath outcome ls] show ?thesis
    by auto
next
  case (step_clean execPath err)
  with assms(2) show ?thesis
    by (simp add: isUpdating_field needsCleaning_field names_defs)
qed

lemma step_sets_execPath:
  assumes "lifecycle_step ls c ls'" "field DATA_EXECPATH ls' \<noteq> None"
    "field DATA_EXECPATH ls' \<noteq> field DATA_EXECPATH ls"
  shows "(\<exists>p e. c = ApplyUpdate p e \<and> field DATA_EXECPATH ls' = Some e) \<and> isUpdating ls'"
  using assms
proof (cases rule: lifecycle_step.cases)
  case (step_apply updatePath execPath)
  with assms(2,3) show ?thesis
    by (simp add: field_applyUpdate isUpdating_field names_defs split: if_splits)
next
  case (step_complete execPath outcome)
  with assms(2,3) field_completeUpdate_cases[of execPath outcome ls] show ?thesis
    by auto
next
  case (step_clean execPath err)
  with assms(2,3) show ?thesis
    by (simp add: field_clean names_defs)
qed


text \<open>
  Claim C8. In every state the lifecycle reaches, a saved executable path is present
  only when the stored mode is \<^verbatim>\<open>UPDATE\<close>. Every call that takes the state from
  \<^verbatim>\<open>isUpdating()\<close> to not \<^verbatim>\<open>isUpdating()\<close> leaves no saved path, and a call after
  which a saved path is present that was not there before is \<^verbatim>\<open>applyUpdate\<close>, which
  stores the path of its own process together with mode \<^verbatim>\<open>UPDATE\<close>.
\<close>

theorem savedExecPath_only_while_updating:
  assumes "reachable ls"
  shows "(field DATA_EXECPATH ls \<noteq> None \<longrightarrow> isUpdating ls)
       \<and> (\<forall>c ls'. lifecycle_step ls c ls' \<longrightarrow>
            (isUpdating ls \<and> \<not> isUpdating ls' \<longrightarrow> field DATA_EXECPATH ls' = None)
          \<and> (field DATA_EXECPATH ls' \<noteq> None
               \<and> field DATA_EXECPATH ls' \<noteq> field DATA_EXECPATH ls
              \<longrightarrow> (\<exists>p e. c = ApplyUpdate p e \<and> field DATA_EXECPATH ls' = Some e)
                  \<and> isUpdating ls'))"
proof (intro conjI allI impI)
  assume "field DATA_EXECPATH ls \<noteq> None"
  with reachable_invariant[OF assms] show "isUpdating ls" by simp
next
  fix c ls'
  assume "lifecycle_step ls c ls'" and "isUpdating ls \<and> \<not> isUpdating ls'"
  then show "field DATA_EXECPATH ls' = None"
    using step_leaves_updating by simp
next
  fix c ls'
  assume s: "lifecycle_step ls c ls'"
    and h: "field DATA_EXECPATH ls' \<noteq> None
            \<and> field DATA_EXECPATH ls' \<noteq> field DATA_EXECPATH ls"
  from h have h1: "field DATA_EXECPATH ls' \<noteq> None"
    and h2: "field DATA_EXECPATH ls' \<noteq> field DATA_EXECPATH ls" by simp_all
  from step_sets_execPath[OF s h1 h2]
  show "\<exists>p e. c = ApplyUpdate p e \<and> field DATA_EXECPATH ls' = Some e"
    and "isUpdating ls'" by simp_all
qed

theorem savedExecPath_only_while_updating_witness:
  "reachable (fst (applyUpdate (Str ''C:/app/update.exe'') ''C:/app/app.exe'' None))
   \<and> field DATA_EXECPATH (fst (applyUpdate (Str ''C:/app/update.exe'') ''C:/app/app.exe'' None))
       = Some ''C:/app/app.exe''
   \<and> isUpdating (fst (applyUpdate (Str ''C:/app/update.exe'') ''C:/app/app.exe'' None))
   \<and> lifecycle_step (fst (applyUpdate (Str ''C:/app/update.exe'') ''C:/app/app.exe'' None))
         (CompleteUpdate ''C:/app/update.exe'' Finish)
         (fst (completeUpdate ''C:/app/update.exe'' Finish
            (fst (applyUpdate (Str ''C:/app/update.exe'') ''C:/app/app.exe'' None))))
   \<and> field DATA_EXECPATH (fst (completeUpdate ''C:/app/update.exe'' Finish
         (fst (applyUpdate (Str ''C:/app/update.exe'') ''C:/app/app.exe'' None)))) = None"
proof -
  let ?s = "fst (applyUpdate (Str ''C:/app/update.exe'') ''C:/app/app.exe'' None)"
  let ?s' = "fst (completeUpdate ''C:/app/update.exe'' Finish ?s)"
  have r: "reachable ?s"
    by (rule reach_step[OF reach_init step_apply])
  note inv = savedExecPath_only_while_updating[OF r]
  have f: "field DATA_EXECPATH ?s = Some ''C:/app/app.exe''"
    by (simp add: field_applyUpdate)
  have u: "isUpdating ?s"
    using inv f by simp
  have st: "lifecycle_step ?s (CompleteUpdate ''C:/app/update.exe'' Finish) ?s'"
    by (rule step_complete)
  have saved: "getData DATA_EXECPATH ?s = Str ''C:/app/app.exe''"
    using f by (simp add: getData_execPath_field)
  have fin: "completeUpdate ''C:/app/update.exe'' Finish ?s =
      (storeData [(DATA_MODE, MODE_CLEAN)] (removeData DATA_EXECPATH ?s),
       [CreateReadStream ''C:/app/update.exe'', CreateWriteStream ''C:/app/app.exe'']
         @ respawn ''C:/app/app.exe'', Respawned)"
    by (rule completeUpdate_finish[OF saved]) simp_all
  have nu: "\<not> isUpdating ?s'"
    by (simp add: fin isUpdating_field field_storeData1 names_defs)
  have "(isUpdating ?s \<and> \<not> isUpdating ?s' \<longrightarrow> field DATA_EXECPATH ?s' = None)"
    using st by (rule inv[THEN conjunct2, THEN spec, THEN spec, THEN mp, THEN conjunct1])
  with u nu have g: "field DATA_EXECPATH ?s' = None" by simp
  show ?thesis using r f u st g by simp
qed

section \<open>Version precedence and checkForUpdate\<close>

lemma compare_nat_antisym: "compare_nat b a = - compare_nat a b"
  by simp

lemma compare_string_antisym: "compare_string b a = - compare_string a b"
  by (induction a b rule: compare_string.induct) auto

lemma compareIdentifiers_antisym: "compareIdentifiers b a = - compareIdentifiers a b"
proof (cases a)
  case (NumId m)
  then show ?thesis by (cases b) simp_all
next
  case (AlnumId x)
  then show ?thesis
    by (cases b) (simp_all add: compare_string_antisym[of _ x])
qed

lemma comparePre_loop_antisym: "comparePre_loop bs as = - comparePre_loop as bs"
proof (induction as bs rule: comparePre_loop.induct)
  case (4 a as b bs)
  show ?case
  proof (cases "a = b")
    case True
    with 4 show ?thesis by simp
  next
    case False
    then have "b \<noteq> a" by simp
    with False show ?thesis
      using compareIdentifiers_antisym[of b a] by simp
  qed
qed simp_all

lemma comparePre_antisym: "comparePre b a = - comparePre a b"
  using comparePre_loop_antisym[of "prerelease b" "prerelease a"]
  by (auto simp add: comparePre_def)

lemma compareMain_antisym: "compareMain b a = - compareMain a b"
  by (simp add: compareMain_def)

lemma semver_compare_antisym: "semver_compare b a = - semver_compare a b"
  using compareMain_antisym[of b a] comparePre_antisym[of b a]
  by (simp add: semver_compare_def)

lemma semver_gte_iff: "semver_gte a b \<longleftrightarrow> semver_lt b a \<or> semver_compare a b = 0"
  using semver_compare_antisym[of b a]
  by (auto simp add: semver_gte_def semver_lt_def)

lemma semver_lt_not_gte: "semver_lt a b \<longleftrightarrow> \<not> semver_gte a b"
  by (auto simp add: semver_gte_def semver_lt_def)

lemma compare_nat_refl: "compare_nat a a = 0"
  by simp

lemma prerelease_before_release:
  assumes "prerelease v \<noteq> []"
  shows "semver_lt v (v\<lparr>prerelease := []\<rparr>)"
  using assms
  by (simp add: semver_lt_def semver_compare_def compareMain_def comparePre_def)

lemma release_not_before_prerelease:
  assumes "prerelease v \<noteq> []"
  shows "semver_gte (v\<lparr>prerelease := []\<rparr>) v"
  using assms
  by (simp add: semver_gte_def semver_compare_def compareMain_def comparePre_def)

lemma checkForUpdate_ok:
  assumes "reply_error r = None" and "reply_statusCode r = Some 200"
    and "JSON_parse (reply_body r) = Some rm" and "version rm = Str b"
    and "parse_version (currentVersion self) = Some va" and "parse_version b = Some vb"
  shows "checkForUpdate self JSON_parse parse_version r =
           (Resolved \<lparr>updateAvailable = semver_lt va vb, updateInformation = rm\<rparr>, None)"
  using assms by (simp add: checkForUpdate_def lt_js_def resolve_def)

lemma checkForUpdate_request_error:
  assumes "reply_error r = Some e"
  shows "fst (checkForUpdate self JSON_parse parse_version r) = Rejected (RequestError e)"
  using assms
  by (simp add: checkForUpdate_def Let_def reject_def resolve_def
      split: option.splits sum.splits)

lemma checkForUpdate_bad_status:
  assumes "reply_error r = None" and "reply_statusCode r = Some n" and "n \<noteq> 200"
  shows "checkForUpdate self JSON_parse parse_version r = (Rejected (StatusCode n), None)"
  using assms by (simp add: checkForUpdate_def reject_def)

lemma checkForUpdate_unparseable:
  assumes "reply_error r = None" and "reply_statusCode r = Some 200"
    and "JSON_parse (reply_body r) = None"
  shows "checkForUpdate self JSON_parse parse_version r = (Pending, Some SyntaxError)"
  using assms by (simp add: checkForUpdate_def)

text \<open>
  Claim C3. On a reply without error, with status 200 and a body that parses to a
  manifest, for every current version \<open>va\<close> and remote version \<open>vb\<close>:
  \<^verbatim>\<open>checkForUpdate\<close> resolves with \<^verbatim>\<open>updateAvailable\<close> true when \<open>va\<close> precedes
  \<open>vb\<close> and with \<^verbatim>\<open>updateAvailable\<close> false when \<open>va\<close> is greater than or equal to
  \<open>vb\<close>; one of the two holds for every pair, and greater-or-equal is the reverse
  order or equal precedence. A pre-release precedes the release it belongs to, so it
  is offered the release, and a release is not offered its own pre-release.
\<close>

theorem checkForUpdate_semver_order:
  assumes "reply_error r = None" and "reply_statusCode r = Some 200"
    and "JSON_parse (reply_body r) = Some rm" and "version rm = Str b"
    and "parse_version (currentVersion self) = Some va" and "parse_version b = Some vb"
  shows "(semver_lt va vb \<longrightarrow>
            checkForUpdate self JSON_parse parse_version r =
              (Resolved \<lparr>updateAvailable = True, updateInformation = rm\<rparr>, None))
       \<and> (semver_gte va vb \<longrightarrow>
            checkForUpdate self JSON_parse parse_version r =
              (Resolved \<lparr>updateAvailable = False, updateInformation = rm\<rparr>, None))
       \<and> (semver_lt va vb \<or> semver_gte va vb)
       \<and> (semver_gte va vb \<longleftrightarrow> semver_lt vb va \<or> semver_compare va vb = 0)
       \<and> (prerelease va \<noteq> [] \<and> vb = va\<lparr>prerelease := []\<rparr> \<longrightarrow> semver_lt va vb)
       \<and> (prerelease vb \<noteq> [] \<and> va = vb\<lparr>prerelease := []\<rparr> \<longrightarrow> semver_gte va vb)"
proof -
  have run: "checkForUpdate self JSON_parse parse_version r =
      (Resolved \<lparr>updateAvailable = semver_lt va vb, updateInformation = rm\<rparr>, None)"
    using assms by (rule checkForUpdate_ok)
  have a: "semver_lt va vb \<longrightarrow>
            checkForUpdate self JSON_parse parse_version r =
              (Resolved \<lparr>updateAvailable = True, updateInformation = rm\<rparr>, None)"
    by (simp add: run)
  have b: "semver_gte va vb \<longrightarrow>
            checkForUpdate self JSON_parse parse_version r =
              (Resolved \<lparr>updateAvailable = False, updateInformation = rm\<rparr>, None)"
    by (simp add: run semver_lt_not_gte)
  have c: "semver_lt va vb \<or> semver_gte va vb"
    by (simp add: semver_lt_not_gte)
  have d: "semver_gte va vb \<longleftrightarrow> semver_lt vb va \<or> semver_compare va vb = 0"
    by (rule semver_gte_iff)
  have e: "prerelease va \<noteq> [] \<and> vb = va\<lparr>prerelease := []\<rparr> \<longrightarrow> semver_lt va vb"
    using prerelease_before_release[of va] by simp
  have f: "prerelease vb \<noteq> [] \<and> va = vb\<lparr>prerelease := []\<rparr> \<longrightarrow> semver_gte va vb"
    using release_not_before_prerelease[of vb] by simp
  from a b c d e f show ?thesis by (intro conjI)
qed


theorem checkForUpdate_semver_order_witness:
  "checkForUpdate example_config example_JSON_parse example_parse_version
     \<lparr>reply_error = None, reply_statusCode = Some 200,
      reply_body = ''{\"version\":\"1.1.0\",\"update\":\"http://x/u.zip\"}''\<rparr>
   = (Resolved \<lparr>updateAvailable = True, updateInformation = example_manifest\<rparr>, None)"
proof -
  let ?r = "\<lparr>reply_error = None, reply_statusCode = Some 200,
      reply_body = ''{\"version\":\"1.1.0\",\"update\":\"http://x/u.zip\"}''\<rparr>"
  let ?va = "\<lparr>major = 1, minor = 1, patch = 0, prerelease = [AlnumId ''beta'', NumId 2]\<rparr>"
  let ?vb = "\<lparr>major = 1, minor = 1, patch = 0, prerelease = []\<rparr>"
  have h1: "reply_error ?r = None" and h2: "reply_statusCode ?r = Some 200" by simp_all
  have h3: "example_JSON_parse (reply_body ?r) = Some example_manifest"
    by (simp add: example_JSON_parse_def)
  have h4: "version example_manifest = Str ''1.1.0''"
    by (simp add: example_manifest_def)
  have h5: "example_parse_version (currentVersion example_config) = Some ?va"
    by (simp add: example_parse_version_def example_config_def)
  have h6: "example_parse_version ''1.1.0'' = Some ?vb"
    by (simp add: example_parse_version_def)
  have lt: "semver_lt ?va ?vb"
    by (simp add: semver_lt_def semver_compare_def compareMain_def comparePre_def)
  from checkForUpdate_semver_order[of ?r example_JSON_parse example_manifest "''1.1.0''"
      example_parse_version example_config ?va ?vb, OF h1 h2 h3 h4 h5 h6] lt
  show ?thesis by simp
qed

text \<open>
  Claim C5, at a reply with status 200 whose body is not JSON: \<^verbatim>\<open>JSON.parse\<close>
  throws inside the request's callback, before \<^verbatim>\<open>deferred.resolve\<close> and with no
  \<^verbatim>\<open>deferred.reject\<close> on that path, so the promise stays pending and the
  \<^verbatim>\<open>SyntaxError\<close> leaves the callback uncaught. The lemmas
  \<open>checkForUpdate_request_error\<close> and \<open>checkForUpdate_bad_status\<close> above are the
  two failures that do reject the promise.
\<close>

theorem checkForUpdate_unparseable_body_never_settles:
  "checkForUpdate example_config example_JSON_parse example_parse_version
     \<lparr>reply_error = None, reply_statusCode = Some 200,
      reply_body = ''<html>Service unavailable</html>''\<rparr>
   = (Pending, Some SyntaxError)"
  by (simp add: checkForUpdate_def example_JSON_parse_def)

section \<open>Runs of downloadUpdate\<close>

lemma deferred_d_do [simp]: "deferred (d_do e st) = deferred st"
  by (simp add: d_do_def)

lemma deferred_d_notify [simp]: "deferred (d_notify n st) = deferred st"
  by (simp add: d_notify_def)

lemma deferred_file_append [simp]: "deferred (file_append p bs st) = deferred st"
  by (simp add: file_append_def)

lemma notified_d_do [simp]: "notified (d_do e st) = notified st"
  by (simp add: d_do_def)

lemma notified_file_append [simp]: "notified (file_append p bs st) = notified st"
  by (simp add: file_append_def)

lemma notified_d_reject [simp]: "notified (d_reject r st) = notified st"
  by (simp add: d_reject_def)

lemma notified_d_resolve [simp]: "notified (d_resolve p st) = notified st"
  by (simp add: d_resolve_def)

lemma files_d_do [simp]: "files (d_do e st) = files st"
  by (simp add: d_do_def)

lemma files_d_notify [simp]: "files (d_notify n st) = files st"
  by (simp add: d_notify_def)

lemma files_d_reject [simp]: "files (d_reject r st) = files st"
  by (simp add: d_reject_def)

lemma files_d_resolve [simp]: "files (d_resolve p st) = files st"
  by (simp add: d_resolve_def)

lemma deferred_on_data [simp]: "deferred (on_data piped up cs rs st) = deferred st"
  by (induction piped up cs rs st rule: on_data.induct) (simp_all add: Let_def)

lemma files_on_data_piped:
  "files st up = Some old \<Longrightarrow>
   files (on_data True up cs rs st) = (files st)(up \<mapsto> old @ concat cs)"
proof (induction cs arbitrary: rs st old)
  case Nil
  then show ?case by (simp add: fun_upd_idem)
next
  case (Cons c cs)
  let ?rs' = "case rs of None \<Rightarrow> None | Some n \<Rightarrow> Some (n + length c)"
  let ?st2 = "file_append up c (d_notify (ReceivedSize ?rs') st)"
  have f: "files ?st2 = (files st)(up \<mapsto> old @ c)"
    using Cons.prems by (simp add: file_append_def)
  then have g: "files ?st2 up = Some (old @ c)" by simp
  have "files (on_data True up (c # cs) rs st) = files (on_data True up cs ?rs' ?st2)"
    by (simp add: Let_def)
  also have "\<dots> = (files ?st2)(up \<mapsto> (old @ c) @ concat cs)"
    by (rule Cons.IH[OF g])
  also have "\<dots> = (files st)(up \<mapsto> old @ concat (c # cs))"
    unfolding f by simp
  finally show ?case .
qed

lemma notified_on_data:
  "deferred st = Pending \<Longrightarrow>
   notified (on_data piped up cs (Some n) st) =
     notified st @ map (\<lambda>k. ReceivedSize (Some k)) (running_sums n (map length cs))"
proof (induction cs arbitrary: n st)
  case Nil
  then show ?case by simp
next
  case (Cons c cs)
  let ?st1 = "d_notify (ReceivedSize (Some (n + length c))) st"
  let ?st2 = "if piped then file_append up c ?st1 else ?st1"
  have p: "deferred ?st2 = Pending" using Cons.prems by simp
  have n2: "notified ?st2 = notified st @ [ReceivedSize (Some (n + length c))]"
    using Cons.prems by (simp add: d_notify_def)
  from Cons.IH[OF p, of "n + length c"] n2 show ?case by (simp add: Let_def)
qed

lemma runtime_update_paths_differ:
  "path_join tmpPath ''exportednw'' \<noteq> path_join tmpPath ''update.zip''"
  by (simp add: path_join_def)

lemma on_merge_finish_rejected:
  "deferred st = Rejected r \<Longrightarrow> deferred (on_merge_finish env rp up st) = Rejected r"
  by (simp add: on_merge_finish_def Let_def d_resolve_def d_reject_def resolve_def reject_def
      split: option.splits)

lemma on_merge_finish_resolved:
  assumes "deferred st = Pending"
  shows "deferred (on_merge_finish env rp up st) = Resolved p \<longleftrightarrow>
         unlink_err env = None \<and> rename_err env = None
         \<and> p = path_join (path_dirname (process_execPath env)) ''update.exe''"
  using assms
  by (auto simp add: on_merge_finish_def Let_def d_resolve_def d_reject_def resolve_def
      reject_def split: option.splits)

lemma on_merge_finish_files:
  assumes "unlink_err env = None" and "rename_err env = None" and "rp \<noteq> up"
  shows "files (on_merge_finish env rp up st)
           (path_join (path_dirname (process_execPath env)) ''update.exe'') = files st rp"
  using assms by (simp add: on_merge_finish_def Let_def)

lemma notified_on_merge_finish [simp]:
  "notified (on_merge_finish env rp up st) = notified st"
  by (simp add: on_merge_finish_def Let_def split: option.splits)

lemma on_request_end_rejected:
  "deferred st = Rejected r \<Longrightarrow> deferred (on_request_end env rp up st) = Rejected r"
  by (simp add: on_request_end_def Let_def on_merge_finish_rejected d_reject_def reject_def
      split: option.splits)

lemma on_request_end_resolved:
  assumes "deferred st = Pending"
  shows "deferred (on_request_end env rp up st) = Resolved p \<longleftrightarrow>
         files st up \<noteq> None \<and> append_err env = None
         \<and> unlink_err env = None \<and> rename_err env = None
         \<and> p = path_join (path_dirname (process_execPath env)) ''update.exe''"
  using assms
  by (auto simp add: on_request_end_def Let_def on_merge_finish_resolved d_reject_def
      reject_def split: option.splits)

lemma on_request_end_files:
  assumes "files st up = Some zipped" and "files st rp = Some runtime"
    and "append_err env = None" and "unlink_err env = None" and "rename_err env = None"
    and "rp \<noteq> up"
  shows "files (on_request_end env rp up st)
           (path_join (path_dirname (process_execPath env)) ''update.exe'')
         = Some (runtime @ zipped)"
  using assms
  by (simp add: on_request_end_def Let_def on_merge_finish_files file_append_def)

lemma notified_on_request_end [simp]:
  "notified (on_request_end env rp up st) = notified st"
  by (simp add: on_request_end_def Let_def split: option.splits)


lemma on_runtime_finish_rejected:
  "deferred st = Rejected r \<Longrightarrow>
   deferred (on_runtime_finish env url tmpPath rp st) = Rejected r"
  by (simp add: on_runtime_finish_def Let_def on_request_end_rejected d_reject_def reject_def
      split: http_reply.splits option.splits)

lemma on_runtime_finish_resolved:
  assumes "deferred st = Pending"
  shows "deferred (on_runtime_finish env url tmpPath rp st) = Resolved p \<longleftrightarrow>
         (\<exists>cl chunks. http env = HttpResponse 200 cl chunks) \<and> zip_write_err env = None
         \<and> append_err env = None \<and> unlink_err env = None \<and> rename_err env = None
         \<and> p = path_join (path_dirname (process_execPath env)) ''update.exe''"
proof (cases "http env")
  case (HttpError e)
  with assms show ?thesis
    by (simp add: on_runtime_finish_def Let_def d_reject_def reject_def)
next
  case (HttpResponse statusCode cl chunks)
  show ?thesis
  proof (cases "statusCode = 200")
    case False
    have "deferred (d_reject UpdateNotFound (d_do (HttpGet url) st)) = Rejected UpdateNotFound"
      using assms by (simp add: d_reject_def reject_def)
    then have "deferred (on_runtime_finish env url tmpPath rp st) = Rejected UpdateNotFound"
      using HttpResponse False
      by (simp add: on_runtime_finish_def Let_def on_request_end_rejected)
    with HttpResponse False show ?thesis by simp
  next
    case True
    show ?thesis
    proof (cases "zip_write_err env")
      case (Some e)
      with HttpResponse True assms show ?thesis
        by (simp add: on_runtime_finish_def Let_def)
    next
      case None
      let ?up = "path_join tmpPath ''update.zip''"
      let ?st2 = "d_do (CreateWriteStream ?up) (d_notify (TotalSize cl) (d_do (HttpGet url) st))"
      let ?st3 = "on_data True ?up chunks (Some 0) (?st2\<lparr>files := (files ?st2)(?up \<mapsto> [])\<rparr>)"
      have run: "on_runtime_finish env url tmpPath rp st = on_request_end env rp ?up ?st3"
        using HttpResponse True None by (simp add: on_runtime_finish_def Let_def)
      have pend: "deferred ?st3 = Pending" using assms by simp
      have "files ?st3 = (files (?st2\<lparr>files := (files ?st2)(?up \<mapsto> [])\<rparr>))(?up \<mapsto> [] @ concat chunks)"
        by (rule files_on_data_piped) simp
      then have zipped: "files ?st3 ?up \<noteq> None" by simp
      show ?thesis
        unfolding run on_request_end_resolved[OF pend]
        using zipped HttpResponse True None by simp
    qed
  qed
qed

lemma on_runtime_finish_success:
  assumes "deferred st = Pending" and "http env = HttpResponse 200 cl chunks"
    and "zip_write_err env = None" and "append_err env = None"
    and "unlink_err env = None" and "rename_err env = None"
    and "files st rp = Some runtime" and "rp \<noteq> path_join tmpPath ''update.zip''"
  shows "files (on_runtime_finish env url tmpPath rp st)
           (path_join (path_dirname (process_execPath env)) ''update.exe'')
         = Some (runtime @ concat chunks)"
    and "notified (on_runtime_finish env url tmpPath rp st) =
           notified st @ TotalSize cl
             # map (\<lambda>k. ReceivedSize (Some k)) (running_sums 0 (map length chunks))"
proof -
  let ?up = "path_join tmpPath ''update.zip''"
  let ?st2 = "d_do (CreateWriteStream ?up) (d_notify (TotalSize cl) (d_do (HttpGet url) st))"
  let ?st2' = "?st2\<lparr>files := (files ?st2)(?up \<mapsto> [])\<rparr>"
  let ?st3 = "on_data True ?up chunks (Some 0) ?st2'"
  have run: "on_runtime_finish env url tmpPath rp st = on_request_end env rp ?up ?st3"
    using assms(2,3) by (simp add: on_runtime_finish_def Let_def)
  have f3: "files ?st3 = (files ?st2')(?up \<mapsto> [] @ concat chunks)"
    by (rule files_on_data_piped) simp
  have zipped: "files ?st3 ?up = Some (concat chunks)"
    unfolding f3 by simp
  have rt: "files ?st3 rp = Some runtime"
    unfolding f3 using assms(7,8) by simp
  show "files (on_runtime_finish env url tmpPath rp st)
           (path_join (path_dirname (process_execPath env)) ''update.exe'')
         = Some (runtime @ concat chunks)"
    unfolding run
    using zipped rt assms(4,5,6,8) by (rule on_request_end_files)
  have p2: "deferred ?st2' = Pending" using assms(1) by simp
  have n2: "notified ?st2' = notified st @ [TotalSize cl]"
    using assms(1) by (simp add: d_notify_def)
  show "notified (on_runtime_finish env url tmpPath rp st) =
           notified st @ TotalSize cl
             # map (\<lambda>k. ReceivedSize (Some k)) (running_sums 0 (map length chunks))"
    unfolding run using notified_on_data[OF p2, of True ?up chunks 0] n2 by simp
qed

lemma downloadUpdate_resolved_iff:
  "deferred (downloadUpdate self env url) = Resolved p \<longleftrightarrow>
     \<not> isDevMode self \<and> fs env (process_execPath env) \<noteq> None
     \<and> mkdirp_err env = None \<and> runtime_write_err env = None
     \<and> (\<exists>cl chunks. http env = HttpResponse 200 cl chunks) \<and> zip_write_err env = None
     \<and> append_err env = None \<and> unlink_err env = None \<and> rename_err env = None
     \<and> p = path_join (path_dirname (process_execPath env)) ''update.exe''"
proof (cases "isDevMode self")
  case True
  then show ?thesis by (simp add: downloadUpdate_def)
next
  case dev: False
  show ?thesis
  proof (cases "runtime_write_err env")
    case (Some e)
    with dev show ?thesis
      by (simp add: downloadUpdate_def Let_def d_reject_def reject_def
          split: option.splits promise.splits)
  next
    case rw: None
    show ?thesis
    proof (cases "fs env (process_execPath env)")
      case None
      with dev rw show ?thesis
        by (simp add: downloadUpdate_def Let_def d_reject_def reject_def
            split: option.splits)
    next
      case (Some exe)
      show ?thesis
      proof (cases "mkdirp_err env")
        case mk: (Some e)
        with dev rw Some show ?thesis
          by (simp add: downloadUpdate_def Let_def on_runtime_finish_rejected d_reject_def
              reject_def d_do_def)
      next
        case mk: None
        with dev rw Some show ?thesis
          by (simp add: downloadUpdate_def Let_def on_runtime_finish_resolved)
      qed
    qed
  qed
qed

lemma downloadUpdate_success:
  assumes "\<not> isDevMode self" and "fs env (process_execPath env) = Some exe"
    and "mkdirp_err env = None" and "runtime_write_err env = None"
    and "http env = HttpResponse 200 cl chunks" and "zip_write_err env = None"
    and "append_err env = None" and "unlink_err env = None" and "rename_err env = None"
  shows "files (downloadUpdate self env url)
           (path_join (path_dirname (process_execPath env)) ''update.exe'')
         = Some (read_range exe 0 (runtimesize self) @ concat chunks)"
    and "notified (downloadUpdate self env url) =
           TotalSize cl # map (\<lambda>k. ReceivedSize (Some k)) (running_sums 0 (map length chunks))"
proof -
  let ?tmp = "path_join (path_join (path_dirname (process_execPath env)) ''tmp'') (date_now env)"
  let ?rp = "path_join ?tmp ''exportednw''"
  let ?st0 = "\<lparr>files = fs env, deferred = Pending, notified = [], effects = [],
                uncaught = []\<rparr>"
  let ?st5 = "d_do (CreateWriteStream ?rp) (d_do (Mkdirp ?tmp)
                (d_do (CreateReadRange (process_execPath env) 0 (runtimesize self)) ?st0))"
  let ?st6 = "?st5\<lparr>files := (files ?st5)(?rp \<mapsto> read_range exe 0 (runtimesize self))\<rparr>"
  have run: "downloadUpdate self env url = on_runtime_finish env url ?tmp ?rp ?st6"
    using assms(1-4) by (simp add: downloadUpdate_def Let_def)
  have p: "deferred ?st6 = Pending" by simp
  have n: "notified ?st6 = []" by simp
  have f: "files ?st6 ?rp = Some (read_range exe 0 (runtimesize self))" by simp
  note fin = on_runtime_finish_success[OF p assms(5-9) f runtime_update_paths_differ]
  show "files (downloadUpdate self env url)
           (path_join (path_dirname (process_execPath env)) ''update.exe'')
         = Some (read_range exe 0 (runtimesize self) @ concat chunks)"
    unfolding run by (rule fin(1))
  show "notified (downloadUpdate self env url) =
           TotalSize cl # map (\<lambda>k. ReceivedSize (Some k)) (running_sums 0 (map length chunks))"
    unfolding run fin(2) n by simp
qed

lemma running_sums_ge: "k \<in> set (running_sums n xs) \<Longrightarrow> n \<le> k"
proof (induction xs arbitrary: n)
  case Nil
  then show ?case by simp
next
  case (Cons x xs)
  from Cons.prems have "k = n + x \<or> k \<in> set (running_sums (n + x) xs)" by simp
  then show ?case
  proof
    assume "k = n + x"
    then show ?thesis by simp
  next
    assume "k \<in> set (running_sums (n + x) xs)"
    then have "n + x \<le> k" by (rule Cons.IH)
    then show ?thesis by simp
  qed
qed

lemma sorted_running_sums: "sorted (running_sums n xs)"
proof (induction xs arbitrary: n)
  case Nil
  show ?case by simp
next
  case (Cons x xs)
  have "\<forall>k\<in>set (running_sums (n + x) xs). n + x \<le> k"
    using running_sums_ge by blast
  with Cons.IH[of "n + x"] show ?case by simp
qed

lemma last_running_sums: "xs \<noteq> [] \<Longrightarrow> last (running_sums n xs) = n + sum_list xs"
proof (induction xs arbitrary: n)
  case Nil
  then show ?case by simp
next
  case (Cons x xs)
  then show ?case by (cases xs) simp_all
qed

lemma running_sums_Nil_iff: "running_sums n xs = [] \<longleftrightarrow> xs = []"
  by (cases xs) simp_all

lemma final_received_running_sums:
  assumes "chunks \<noteq> []"
  shows "final_received_equals_total
           (TotalSize cl # map (\<lambda>k. ReceivedSize (Some k)) (running_sums 0 (map length chunks)))
         \<longleftrightarrow> cl = Some (length (concat chunks))"
proof -
  let ?rs = "running_sums 0 (map length chunks)"
  have ne: "?rs \<noteq> []" using assms by (simp add: running_sums_Nil_iff)
  then have "?rs = butlast ?rs @ [last ?rs]" by simp
  then have "map (\<lambda>k. ReceivedSize (Some k)) ?rs =
      map (\<lambda>k. ReceivedSize (Some k)) (butlast ?rs) @ [ReceivedSize (Some (last ?rs))]"
    by (metis list.simps(8) list.simps(9) map_append)
  then have "rev (map (\<lambda>k. ReceivedSize (Some k)) ?rs) =
      ReceivedSize (Some (last ?rs)) # rev (map (\<lambda>k. ReceivedSize (Some k)) (butlast ?rs))"
    by simp
  moreover have "last ?rs = length (concat chunks)"
    using assms by (simp add: last_running_sums length_concat)
  ultimately show ?thesis
    by (auto simp add: final_received_equals_total_def)
qed

lemma example_staged_path:
  "path_join (path_dirname ''C:/app/app.exe'') ''update.exe'' = ''C:/app/update.exe''"
  by (simp add: path_join_def path_dirname_def path_sep_def)

text \<open>
  Claim C9. With the development flag set, \<^verbatim>\<open>downloadUpdate\<close> returns a promise
  rejected with \<^verbatim>\<open>'Update aborted in development environment'\<close> and does nothing
  else: no operation is issued (no stream, no directory, no request), no file
  changes, nothing is notified and nothing is thrown.
\<close>

theorem downloadUpdate_devmode:
  assumes "isDevMode self"
  shows "downloadUpdate self env updateLocation =
           \<lparr>files = fs env, deferred = Rejected DevMode, notified = [], effects = [],
            uncaught = []\<rparr>"
  using assms by (simp add: downloadUpdate_def)

theorem downloadUpdate_devmode_witness:
  "isDevMode example_devel_config
   \<and> deferred (downloadUpdate example_devel_config example_env ''http://x/u.zip'')
       = Rejected DevMode
   \<and> effects (downloadUpdate example_devel_config example_env ''http://x/u.zip'') = []
   \<and> files (downloadUpdate example_devel_config example_env ''http://x/u.zip'')
       = fs example_env"
proof -
  have d: "isDevMode example_devel_config"
    by (simp add: example_devel_config_def)
  show ?thesis
    using d downloadUpdate_devmode[OF d, of example_env "''http://x/u.zip''"] by simp
qed

lemma downloadUpdate_staged_bytes:
  assumes "deferred (downloadUpdate self env url) = Resolved p"
  shows "\<exists>exe cl chunks. fs env (process_execPath env) = Some exe
           \<and> http env = HttpResponse 200 cl chunks
           \<and> files (downloadUpdate self env url) p
               = Some (take (runtimesize self + 1) exe @ concat chunks)"
proof -
  from assms[unfolded downloadUpdate_resolved_iff]
  obtain exe cl chunks where h: "\<not> isDevMode self" "fs env (process_execPath env) = Some exe"
    "mkdirp_err env = None" "runtime_write_err env = None"
    "http env = HttpResponse 200 cl chunks" "zip_write_err env = None"
    "append_err env = None" "unlink_err env = None" "rename_err env = None"
    and p: "p = path_join (path_dirname (process_execPath env)) ''update.exe''"
    by auto
  from downloadUpdate_success(1)[OF h, of url] p h(2,5)
  show ?thesis by (simp add: read_range_def)
qed

lemma example_env_resolved:
  "deferred (downloadUpdate example_config example_env ''http://x/u.zip'')
     = Resolved ''C:/app/update.exe''"
  unfolding downloadUpdate_resolved_iff
  by (simp add: example_env_def example_config_def example_staged_path)

lemma example_chunked_env_resolved:
  "deferred (downloadUpdate example_config example_chunked_env ''http://x/u.zip'')
     = Resolved ''C:/app/update.exe''"
  unfolding downloadUpdate_resolved_iff
  by (simp add: example_chunked_env_def example_env_def example_config_def example_staged_path)

text \<open>
  Claim C1, at a runtime size of 1000, an executable of 1004 bytes (the runtime and the
  first four bytes of its payload) and a payload of 2000 bytes in two chunks: the run
  succeeds and the staged file is the first 1001 bytes of the executable followed by
  the payload, 3001 bytes. \<^verbatim>\<open>createReadStream\<close> is called with
  \<^verbatim>\<open>{start: 0, end: this.runtimesize}\<close> and \<^verbatim>\<open>end\<close> is inclusive. In general
  (\<open>downloadUpdate_staged_bytes\<close>) the staged file of a successful run is
  \<open>take (runtimesize + 1)\<close> of the executable followed by the chunks in order.
\<close>

theorem downloadUpdate_runtime_prefix_one_byte_more:
  "deferred (downloadUpdate example_config example_env ''http://x/u.zip'')
     = Resolved ''C:/app/update.exe''
   \<and> files (downloadUpdate example_config example_env ''http://x/u.zip'') ''C:/app/update.exe''
     = Some (replicate 1000 0x90 @ [0x50] @ replicate 1500 0x11 @ replicate 500 0x22)
   \<and> map_option length
        (files (downloadUpdate example_config example_env ''http://x/u.zip'')
           ''C:/app/update.exe'')
     = Some 3001"
proof -
  have f: "files (downloadUpdate example_config example_env ''http://x/u.zip'')
             (path_join (path_dirname (process_execPath example_env)) ''update.exe'')
           = Some (read_range (replicate 1000 0x90 @ [0x50, 0x4B, 0x03, 0x04]) 0
                     (runtimesize example_config)
                   @ concat [replicate 1500 0x11, replicate 500 0x22])"
    by (rule downloadUpdate_success(1))
       (simp_all add: example_env_def example_config_def)
  have rr: "read_range (replicate 1000 0x90 @ [0x50, 0x4B, 0x03, 0x04 :: byte]) 0
              (runtimesize example_config) = replicate 1000 0x90 @ [0x50]"
    by (simp add: read_range_def example_config_def)
  have pth: "path_join (path_dirname (process_execPath example_env)) ''update.exe''
             = ''C:/app/update.exe''"
    by (simp add: example_env_def example_staged_path)
  from f have g: "files (downloadUpdate example_config example_env ''http://x/u.zip'')
      ''C:/app/update.exe''
     = Some (replicate 1000 0x90 @ [0x50] @ replicate 1500 0x11 @ replicate 500 0x22)"
    unfolding rr pth by simp
  have "map_option length
        (files (downloadUpdate example_config example_env ''http://x/u.zip'')
           ''C:/app/update.exe'') = Some 3001"
    unfolding g by simp
  with g example_env_resolved show ?thesis by simp
qed

text \<open>
  Claim C6 fails as stated: a response with status 200 and no \<^verbatim>\<open>content-length\<close>
  header gives a successful run whose first notification is
  \<^verbatim>\<open>{totalSize: undefined}\<close> and whose last is \<^verbatim>\<open>{receivedSize: 3}\<close>.
\<close>

theorem downloadUpdate_totalSize_absent:
  "deferred (downloadUpdate example_config example_chunked_env ''http://x/u.zip'')
     = Resolved ''C:/app/update.exe''
   \<and> notified (downloadUpdate example_config example_chunked_env ''http://x/u.zip'')
     = [TotalSize None, ReceivedSize (Some 3)]
   \<and> \<not> final_received_equals_total
         (notified (downloadUpdate example_config example_chunked_env ''http://x/u.zip''))"
proof -
  have n: "notified (downloadUpdate example_config example_chunked_env ''http://x/u.zip'')
      = TotalSize None # map (\<lambda>k. ReceivedSize (Some k)) (running_sums 0 (map length [[1, 2, 3 :: byte]]))"
    by (rule downloadUpdate_success(2))
       (simp_all add: example_chunked_env_def example_env_def example_config_def)
  then have n': "notified (downloadUpdate example_config example_chunked_env ''http://x/u.zip'')
      = [TotalSize None, ReceivedSize (Some 3)]"
    by simp
  show ?thesis
    unfolding n' using example_chunked_env_resolved
    by (simp add: final_received_equals_total_def)
qed

text \<open>
  Claim C6, amended. In every successful run the first notification carries the
  \<^verbatim>\<open>content-length\<close> header as it came (absent when the response has none), the
  notifications after it carry the running sums of the chunk lengths, which never
  decrease, and when there is a chunk the last of them is the number of payload bytes
  received; it equals the announced \<^verbatim>\<open>totalSize\<close> exactly when the header is
  present and holds that number.
\<close>

theorem downloadUpdate_progress:
  assumes "deferred (downloadUpdate self env url) = Resolved p"
  shows "\<exists>cl chunks. http env = HttpResponse 200 cl chunks
           \<and> notified (downloadUpdate self env url) =
               TotalSize cl
                 # map (\<lambda>k. ReceivedSize (Some k)) (running_sums 0 (map length chunks))
           \<and> sorted (running_sums 0 (map length chunks))
           \<and> (chunks \<noteq> [] \<longrightarrow>
                 last (running_sums 0 (map length chunks)) = length (concat chunks)
                 \<and> (final_received_equals_total (notified (downloadUpdate self env url))
                      \<longleftrightarrow> cl = Some (length (concat chunks))))"
proof -
  from assms[unfolded downloadUpdate_resolved_iff]
  obtain exe cl chunks where h: "\<not> isDevMode self" "fs env (process_execPath env) = Some exe"
    "mkdirp_err env = None" "runtime_write_err env = None"
    "http env = HttpResponse 200 cl chunks" "zip_write_err env = None"
    "append_err env = None" "unlink_err env = None" "rename_err env = None"
    by auto
  note n = downloadUpdate_success(2)[OF h, of url]
  have l: "chunks \<noteq> [] \<longrightarrow> last (running_sums 0 (map length chunks)) = length (concat chunks)"
    by (simp add: last_running_sums length_concat)
  have e: "chunks \<noteq> [] \<longrightarrow>
        (final_received_equals_total (notified (downloadUpdate self env url))
           \<longleftrightarrow> cl = Some (length (concat chunks)))"
    unfolding n using final_received_running_sums[of chunks cl] by simp
  from h(5) n sorted_running_sums[of 0 "map length chunks"] l e
  show ?thesis by (intro exI[of _ cl] exI[of _ chunks]) simp
qed

theorem downloadUpdate_progress_witness:
  "deferred (downloadUpdate example_config example_env ''http://x/u.zip'')
     = Resolved ''C:/app/update.exe''
   \<and> notified (downloadUpdate example_config example_env ''http://x/u.zip'')
     = [TotalSize (Some 2000), ReceivedSize (Some 1500), ReceivedSize (Some 2000)]
   \<and> final_received_equals_total
        (notified (downloadUpdate example_config example_env ''http://x/u.zip''))"
proof -
  from downloadUpdate_progress[OF example_env_resolved]
  obtain cl chunks where
    h: "http example_env = HttpResponse 200 cl chunks"
    and n: "notified (downloadUpdate example_config example_env ''http://x/u.zip'') =
             TotalSize cl
               # map (\<lambda>k. ReceivedSize (Some k)) (running_sums 0 (map length chunks))"
    and f: "chunks \<noteq> [] \<longrightarrow>
             last (running_sums 0 (map length chunks)) = length (concat chunks)
             \<and> (final_received_equals_total
                  (notified (downloadUpdate example_config example_env ''http://x/u.zip''))
                \<longleftrightarrow> cl = Some (length (concat chunks)))"
    by blast
  from h have cl: "cl = Some 2000"
    and ch: "chunks = [replicate 1500 0x11, replicate 500 0x22]"
    by (simp_all add: example_env_def)
  have n': "notified (downloadUpdate example_config example_env ''http://x/u.zip'')
     = [TotalSize (Some 2000), ReceivedSize (Some 1500), ReceivedSize (Some 2000)]"
    unfolding n cl ch by simp
  have "final_received_equals_total
        (notified (downloadUpdate example_config example_env ''http://x/u.zip''))"
    using f unfolding cl ch by simp
  with n' example_env_resolved show ?thesis by simp
qed

end
